theory Spec2Isabelle
  imports Main "HOL-Library.Word" "HOL-Library.Signed_Division"
begin

unbundle bit_operations_syntax

section \<open>ASN.1 utilities of the client (client/crypto/asn1utils.c)\<close>

text \<open>
  Conventions of the embedding.
  \<^item> A byte (\<open>uint8_t\<close>, \<open>unsigned char\<close>) is an \<open>8 word\<close>.
  \<^item> A pointer argument that may be \<open>NULL\<close> is an \<open>option\<close>: \<open>None\<close> is the null
    pointer, \<open>Some xs\<close> a pointer to the bytes \<open>xs\<close>.
  \<^item> A cursor into a buffer (\<open>unsigned char *p\<close>, \<open>const unsigned char *end\<close>) is the
    offset from the start of that buffer, a \<open>nat\<close>; \<open>size_t\<close> lengths are \<open>nat\<close>.
  \<^item> A C status code is an \<open>int\<close>; a function that returns a status and moves a cursor
    returns \<open>Inl status\<close> on failure and \<open>Inr\<close> of the new cursor and its outputs on
    success.
  \<^item> The output buffers \<open>rval\<close> and \<open>sval\<close> are passed in and returned updated; they are
    taken to be two separate buffers that do not overlap the signature.
  \<^item> \<open>signature\<close> points to at least \<open>signaturelen\<close> bytes; the parser reads below
    \<open>end\<close> only.
\<close>

type_synonym byte = "8 word"

subsection \<open>The mbedtls helpers used by the signature decomposer\<close>

text \<open>
  Modelled from the spec: the status codes of the mbedtls parser and big-integer
  routines (mbedtls/asn1.h, mbedtls/bignum.h), whose headers are not among the sources.
  The spec only requires them to be failures distinct from 0, 1 and 2.
\<close>

definition MBEDTLS_ERR_ASN1_OUT_OF_DATA :: int where
  "MBEDTLS_ERR_ASN1_OUT_OF_DATA = - 0x60"

definition MBEDTLS_ERR_ASN1_UNEXPECTED_TAG :: int where
  "MBEDTLS_ERR_ASN1_UNEXPECTED_TAG = - 0x62"

definition MBEDTLS_ERR_ASN1_INVALID_LENGTH :: int where
  "MBEDTLS_ERR_ASN1_INVALID_LENGTH = - 0x64"

definition MBEDTLS_ERR_MPI_BUFFER_TOO_SMALL :: int where
  "MBEDTLS_ERR_MPI_BUFFER_TOO_SMALL = - 0x08"

text \<open>
  Modelled from the spec: the tag constants of mbedtls/asn1.h. \<open>INTEGER\<close> is the tag
  byte 0x02; \<open>SEQUENCE\<close> is universal tag number 16 and \<open>CONSTRUCTED\<close> the bit 0x20.
\<close>

definition MBEDTLS_ASN1_INTEGER :: byte where
  "MBEDTLS_ASN1_INTEGER = 0x02"

definition MBEDTLS_ASN1_SEQUENCE :: byte where
  "MBEDTLS_ASN1_SEQUENCE = 0x10"

definition MBEDTLS_ASN1_CONSTRUCTED :: byte where
  "MBEDTLS_ASN1_CONSTRUCTED = 0x20"

text \<open>
  Modelled from the spec: \<open>mbedtls_asn1_get_len\<close> (not among the sources), the "DER
  length prefix" of the spec. One byte below 0x80 is the length itself; otherwise the low
  seven bits give the number (1 to 4) of big-endian length bytes that follow. The length
  read must fit between the cursor and \<open>end\<close>. The length is returned with the cursor
  that stands on the first content byte.
\<close>

definition asn1_len_fits :: "nat \<Rightarrow> nat \<Rightarrow> nat \<Rightarrow> int + (nat \<times> nat)" where
  "asn1_len_fits p e len =
     (if len > e - p then Inl MBEDTLS_ERR_ASN1_OUT_OF_DATA else Inr (p, len))"

definition mbedtls_asn1_get_len :: "byte list \<Rightarrow> nat \<Rightarrow> nat \<Rightarrow> int + (nat \<times> nat)" where
  "mbedtls_asn1_get_len buf p e =
     (if e - p < 1 then Inl MBEDTLS_ERR_ASN1_OUT_OF_DATA
      else if buf ! p AND 0x80 = 0 then asn1_len_fits (p + 1) e (unat (buf ! p))
      else if buf ! p AND 0x7F = 1 then
        (if e - p < 2 then Inl MBEDTLS_ERR_ASN1_OUT_OF_DATA
         else asn1_len_fits (p + 2) e (unat (buf ! (p + 1))))
      else if buf ! p AND 0x7F = 2 then
        (if e - p < 3 then Inl MBEDTLS_ERR_ASN1_OUT_OF_DATA
         else asn1_len_fits (p + 3) e
                (unat (buf ! (p + 1)) * 2 ^ 8 + unat (buf ! (p + 2))))
      else if buf ! p AND 0x7F = 3 then
        (if e - p < 4 then Inl MBEDTLS_ERR_ASN1_OUT_OF_DATA
         else asn1_len_fits (p + 4) e
                (unat (buf ! (p + 1)) * 2 ^ 16 + unat (buf ! (p + 2)) * 2 ^ 8
                 + unat (buf ! (p + 3))))
      else if buf ! p AND 0x7F = 4 then
        (if e - p < 5 then Inl MBEDTLS_ERR_ASN1_OUT_OF_DATA
         else asn1_len_fits (p + 5) e
                (unat (buf ! (p + 1)) * 2 ^ 24 + unat (buf ! (p + 2)) * 2 ^ 16
                 + unat (buf ! (p + 3)) * 2 ^ 8 + unat (buf ! (p + 4))))
      else Inl MBEDTLS_ERR_ASN1_INVALID_LENGTH)"

text \<open>
  Modelled from the spec: \<open>mbedtls_asn1_get_tag\<close> (not among the sources). It expects
  the byte under the cursor to be the given tag and reads the length after it.
\<close>

definition mbedtls_asn1_get_tag ::
  "byte list \<Rightarrow> nat \<Rightarrow> nat \<Rightarrow> byte \<Rightarrow> int + (nat \<times> nat)" where
  "mbedtls_asn1_get_tag buf p e tag =
     (if e - p < 1 then Inl MBEDTLS_ERR_ASN1_OUT_OF_DATA
      else if buf ! p \<noteq> tag then Inl MBEDTLS_ERR_ASN1_UNEXPECTED_TAG
      else mbedtls_asn1_get_len buf (p + 1) e)"

text \<open>
  Modelled from the spec: \<open>mbedtls_mpi_read_binary\<close> (not among the sources): the
  magnitude bytes, most significant first, as an unsigned big integer. A leading 0x00
  padding byte adds nothing to the value. An \<open>mbedtls_mpi\<close> is the natural number it
  holds; allocation failure is not modelled.
\<close>

definition mbedtls_mpi_read_binary :: "byte list \<Rightarrow> nat \<Rightarrow> nat \<Rightarrow> nat" where
  "mbedtls_mpi_read_binary buf p len =
     foldl (\<lambda>acc b. acc * 256 + unat b) 0 (take len (drop p buf))"

text \<open>
  Modelled from the spec: \<open>mbedtls_asn1_get_mpi\<close> (not among the sources): an
  \<open>INTEGER\<close> tag byte, a length, and that many magnitude bytes, after which the cursor
  stands behind the integer.
\<close>

definition mbedtls_asn1_get_mpi :: "byte list \<Rightarrow> nat \<Rightarrow> nat \<Rightarrow> int + (nat \<times> nat)" where
  "mbedtls_asn1_get_mpi buf p e =
     (case mbedtls_asn1_get_tag buf p e MBEDTLS_ASN1_INTEGER of
        Inl ret \<Rightarrow> Inl ret
      | Inr (p', len) \<Rightarrow> Inr (p' + len, mbedtls_mpi_read_binary buf p' len))"

text \<open>
  Modelled from the spec: \<open>mbedtls_mpi_size\<close> (not among the sources): the number of
  bytes the magnitude requires.
\<close>

fun mbedtls_mpi_size :: "nat \<Rightarrow> nat" where
  "mbedtls_mpi_size x = (if x = 0 then 0 else Suc (mbedtls_mpi_size (x div 256)))"

declare mbedtls_mpi_size.simps [simp del]

text \<open>The \<open>n\<close> low-order bytes of a number, most significant first.\<close>

fun be_bytes :: "nat \<Rightarrow> nat \<Rightarrow> byte list" where
  "be_bytes 0 x = []"
| "be_bytes (Suc n) x = be_bytes n (x div 256) @ [of_nat (x mod 256)]"

text \<open>
  Modelled from the spec: \<open>mbedtls_mpi_write_binary\<close> (not among the sources): the
  integer as exactly \<open>buflen\<close> big-endian bytes at the start of the buffer, padded with
  zero bytes on the left; a magnitude that requires more than \<open>buflen\<close> bytes is a
  failure that writes nothing. The status is returned with the buffer.
\<close>

definition mbedtls_mpi_write_binary :: "nat \<Rightarrow> byte list \<Rightarrow> nat \<Rightarrow> int \<times> byte list" where
  "mbedtls_mpi_write_binary x buf buflen =
     (if buflen < mbedtls_mpi_size x then (MBEDTLS_ERR_MPI_BUFFER_TOO_SMALL, buf)
      else (0, be_bytes buflen x @ drop buflen buf))"

subsection \<open>ecdsa_asn1_get_signature\<close>

text \<open>
  The cursor \<open>p\<close> starts at offset 0 of \<open>signature\<close> and \<open>end\<close> is \<open>p + signaturelen\<close>,
  the end of the input. The length \<open>len\<close> that \<open>mbedtls_asn1_get_tag\<close> reports for the
  outer \<open>SEQUENCE\<close> is not used afterwards. The result is the returned status with the
  two output buffers as the call leaves them.
\<close>

definition ecdsa_asn1_get_signature ::
  "byte list option \<Rightarrow> nat \<Rightarrow> byte list option \<Rightarrow> byte list option
     \<Rightarrow> int \<times> byte list option \<times> byte list option" where
  "ecdsa_asn1_get_signature signature signaturelen rval sval =
     (case (signature, rval, sval) of
        (Some sg, Some r, Some s) \<Rightarrow>
          if signaturelen = 0 then (1, rval, sval)
          else
            (let e = 0 + signaturelen in
             case mbedtls_asn1_get_tag sg 0 e
                    (MBEDTLS_ASN1_CONSTRUCTED OR MBEDTLS_ASN1_SEQUENCE) of
               Inl res \<Rightarrow> (res, Some r, Some s)
             | Inr (p1, len) \<Rightarrow>
                 (case mbedtls_asn1_get_mpi sg p1 e of
                    Inl res \<Rightarrow> (res, Some r, Some s)
                  | Inr (p2, xmpi) \<Rightarrow>
                      (case mbedtls_mpi_write_binary xmpi r 32 of
                         (res, r') \<Rightarrow>
                           if res \<noteq> 0 then (res, Some r', Some s)
                           else
                             (case mbedtls_asn1_get_mpi sg p2 e of
                                Inl res \<Rightarrow> (res, Some r', Some s)
                              | Inr (p3, ympi) \<Rightarrow>
                                  (case mbedtls_mpi_write_binary ympi s 32 of
                                     (res, s') \<Rightarrow>
                                       if res \<noteq> 0 then (res, Some r', Some s')
                                       else if e \<noteq> p3 then (2, Some r', Some s')
                                       else (res, Some r', Some s'))))))
      | _ \<Rightarrow> (1, rval, sval))"

text \<open>
  The DER encoding of \<open>SEQUENCE { INTEGER 1, INTEGER 2 }\<close>: tag 0x30, length 6, and
  twice tag 0x02, length 1 and the magnitude byte. DER encodings are canonical, so this
  is the only one.
\<close>

definition der_sequence_1_2 :: "byte list" where
  "der_sequence_1_2 = [0x30, 0x06, 0x02, 0x01, 0x01, 0x02, 0x01, 0x02]"

text \<open>
  The DER encoding of \<open>SEQUENCE { INTEGER 2 ^ 256, INTEGER 2 }\<close>, 40 bytes: the first
  integer has the 33 magnitude bytes 0x01 and 32 times 0x00.
\<close>

definition der_sequence_wide :: "byte list" where
  "der_sequence_wide = [0x30, 0x26, 0x02, 0x21, 0x01] @ replicate 32 0 @ [0x02, 0x01, 0x02]"

section \<open>Tag registry\<close>

datatype asn1_tag_t =
    ASN1_TAG_GENERIC
  | ASN1_TAG_BOOLEAN
  | ASN1_TAG_INTEGER
  | ASN1_TAG_STRING
  | ASN1_TAG_UTC_TIME
  | ASN1_TAG_OBJECT_ID

text \<open>
  Modelled from the spec: \<open>tlv_tag_t\<close> and \<open>struct tlv\<close> are declared in emv/tlv.h,
  which is not among the sources. The spec gives a tag code at most 16 bits and a node
  the three fields tag, length and value. The field \<open>value\<close> is a pointer to \<open>len\<close>
  bytes; here it is the list of the bytes it points to, and \<open>tlv_wf\<close> says that \<open>len\<close>
  is their number. The fields carry the prefix \<open>tlv_\<close>.
\<close>

type_synonym tlv_tag_t = "16 word"

record tlv =
  tlv_tag :: tlv_tag_t
  tlv_len :: nat
  tlv_value :: "byte list"

definition tlv_wf :: "tlv \<Rightarrow> bool" where
  "tlv_wf t = (tlv_len t = length (tlv_value t))"

text \<open>
  \<open>struct asn1_tag\<close>. Its last field \<open>data\<close> is never set or read and is left out. An
  initialiser that gives no \<open>type\<close> leaves it 0, which is \<open>ASN1_TAG_GENERIC\<close>.
\<close>

record asn1_tag =
  tag :: tlv_tag_t
  name :: string
  type :: asn1_tag_t

definition asn1_tags :: "asn1_tag list" where
  "asn1_tags =
     [\<lparr>tag = 0x00, name = ''Unknown ???'', type = ASN1_TAG_GENERIC\<rparr>,
      \<lparr>tag = 0x01, name = ''BOOLEAN'', type = ASN1_TAG_BOOLEAN\<rparr>,
      \<lparr>tag = 0x02, name = ''INTEGER'', type = ASN1_TAG_INTEGER\<rparr>,
      \<lparr>tag = 0x03, name = ''BIT STRING'', type = ASN1_TAG_GENERIC\<rparr>,
      \<lparr>tag = 0x04, name = ''OCTET STRING'', type = ASN1_TAG_GENERIC\<rparr>,
      \<lparr>tag = 0x05, name = ''NULL'', type = ASN1_TAG_GENERIC\<rparr>,
      \<lparr>tag = 0x06, name = ''OBJECT IDENTIFIER'', type = ASN1_TAG_OBJECT_ID\<rparr>,
      \<lparr>tag = 0x0C, name = ''UTF8String'', type = ASN1_TAG_STRING\<rparr>,
      \<lparr>tag = 0x10, name = ''SEQUENCE'', type = ASN1_TAG_GENERIC\<rparr>,
      \<lparr>tag = 0x11, name = ''SET'', type = ASN1_TAG_GENERIC\<rparr>,
      \<lparr>tag = 0x13, name = ''PrintableString'', type = ASN1_TAG_STRING\<rparr>,
      \<lparr>tag = 0x14, name = ''T61String'', type = ASN1_TAG_STRING\<rparr>,
      \<lparr>tag = 0x16, name = ''IA5String'', type = ASN1_TAG_STRING\<rparr>,
      \<lparr>tag = 0x17, name = ''UTCTime'', type = ASN1_TAG_UTC_TIME\<rparr>,
      \<lparr>tag = 0x18, name = ''GeneralizedTime'', type = ASN1_TAG_UTC_TIME\<rparr>,
      \<lparr>tag = 0x30, name = ''SEQUENCE'', type = ASN1_TAG_GENERIC\<rparr>,
      \<lparr>tag = 0x31, name = ''SET'', type = ASN1_TAG_GENERIC\<rparr>,
      \<lparr>tag = 0xa0, name = ''[0]'', type = ASN1_TAG_GENERIC\<rparr>,
      \<lparr>tag = 0xa1, name = ''[1]'', type = ASN1_TAG_GENERIC\<rparr>,
      \<lparr>tag = 0xa2, name = ''[2]'', type = ASN1_TAG_GENERIC\<rparr>,
      \<lparr>tag = 0xa3, name = ''[3]'', type = ASN1_TAG_GENERIC\<rparr>,
      \<lparr>tag = 0xa4, name = ''[4]'', type = ASN1_TAG_GENERIC\<rparr>,
      \<lparr>tag = 0xa5, name = ''[5]'', type = ASN1_TAG_GENERIC\<rparr>]"

text \<open>
  The rank. The tag is promoted to \<open>int\<close> before the shift, so a code below 0x100
  shifted by 8 bits does not wrap.
\<close>

definition asn1_sort_tag :: "tlv_tag_t \<Rightarrow> int" where
  "asn1_sort_tag tg = (if tg \<ge> 0x100 then uint tg else push_bit 8 (uint tg))"

definition asn1_tlv_compare :: "tlv \<Rightarrow> asn1_tag \<Rightarrow> int" where
  "asn1_tlv_compare a b = asn1_sort_tag (tlv_tag a) - asn1_sort_tag (tag b)"

text \<open>
  Modelled from the spec: \<open>bsearch\<close> of the C library, the "ordered binary search" of
  the spec: the loop halves the range \<open>[l, u)\<close> at \<open>(l + u) / 2\<close> until the comparison
  is 0 or the range is empty. The result is the index of the element found, and \<open>None\<close>
  for the null pointer.
\<close>

function bsearch_range ::
  "'k \<Rightarrow> 'e list \<Rightarrow> nat \<Rightarrow> nat \<Rightarrow> ('k \<Rightarrow> 'e \<Rightarrow> int) \<Rightarrow> nat option" where
  "bsearch_range key base l u compar =
     (if l < u then
        (let idx = (l + u) div 2;
             comparison = compar key (base ! idx)
         in if comparison < 0 then bsearch_range key base l idx compar
            else if comparison > 0 then bsearch_range key base (idx + 1) u compar
            else Some idx)
      else None)"
  by pat_completeness auto
termination
  by (relation "measure (\<lambda>(key, base, l, u, compar). u - l)") auto

declare bsearch_range.simps [simp del]

definition bsearch :: "'k \<Rightarrow> 'e list \<Rightarrow> nat \<Rightarrow> ('k \<Rightarrow> 'e \<Rightarrow> int) \<Rightarrow> nat option" where
  "bsearch key base nmemb compar = bsearch_range key base 0 nmemb compar"

definition asn1_get_tag :: "tlv \<Rightarrow> asn1_tag" where
  "asn1_get_tag t =
     (case bsearch t asn1_tags (length asn1_tags) asn1_tlv_compare of
        Some i \<Rightarrow> asn1_tags ! i
      | None \<Rightarrow> asn1_tags ! 0)"

section \<open>Value formatter\<close>

text \<open>
  What the program writes to a \<open>FILE\<close> is the list of its output calls, in order: an
  \<open>fprintf\<close> with its format string and arguments, an \<open>fwrite\<close> with the buffer, the
  element size and the count, and a call of \<open>dump_buffer\<close> (emv/dump.c) with the buffer,
  its length and the level. The argument \<open>Arg_oid\<close> stands for the text that
  \<open>mbedtls_oid_get_numeric_string\<close> leaves in \<open>pstr\<close> for the given value and length.
\<close>

datatype fmt_arg =
    Arg_s string
  | Arg_hx tlv_tag_t
  | Arg_zx nat
  | Arg_lu "64 word"
  | Arg_oid "byte list" nat

datatype out_call =
    Fprintf string "fmt_arg list"
  | Fwrite "byte list" nat nat
  | Dump_buffer "byte list" nat int


text \<open>
  A read outside the bytes of a value, and the use of a null node, are errors of the
  model: C does not define them. The index of a read is an \<open>int\<close>, as a C index
  computed from an \<open>int\<close> can be negative.
\<close>

datatype error = Out_of_bounds int | Null_pointer

definition tlv_value_at :: "tlv \<Rightarrow> int \<Rightarrow> error + byte" where
  "tlv_value_at t i =
     (if 0 \<le> i \<and> i < int (length (tlv_value t)) then Inr (tlv_value t ! nat i)
      else Inl (Out_of_bounds i))"

definition PRINT_INDENT :: "int \<Rightarrow> out_call list" where
  "PRINT_INDENT level = replicate (nat level) (Fprintf ''   '' [])"

definition asn1_tag_dump_string :: "tlv \<Rightarrow> asn1_tag \<Rightarrow> int \<Rightarrow> out_call list" where
  "asn1_tag_dump_string t tg level =
     [Fprintf (CHR 0x09 # ''value: '' @ [CHR 0x27]) [],
      Fwrite (tlv_value t) 1 (tlv_len t),
      Fprintf (CHR 0x27 # ''\<newline>'') []]"

text \<open>
  \<open>asn1_value_integer\<close>, on a platform with 32-bit \<open>int\<close> and \<open>unsigned\<close> and 64-bit
  \<open>size_t\<close> and \<open>unsigned long\<close>.
  \<^item> \<open>start\<close> and \<open>end\<close> are \<open>unsigned\<close>: 32-bit words, whose arithmetic wraps and whose
    order is that of \<open>unat\<close>. In \<open>end > tlv->len * 2\<close> the product is taken in \<open>size_t\<close>
    and \<open>end\<close> is converted to \<open>size_t\<close>. The indices \<open>start / 2\<close> and \<open>end / 2\<close> are
    unsigned quotients.
  \<^item> \<open>i\<close> is an \<open>int\<close>: a 32-bit word read by \<open>sint\<close>. The assignment of an unsigned
    value to \<open>i\<close> keeps the bits, and \<open>i += 2\<close> wraps in two's complement. In
    \<open>i < end - 1\<close> the \<open>int\<close> is converted to \<open>unsigned\<close>, so the words are compared as
    they are. The index \<open>i / 2\<close> is the signed quotient, which truncates towards zero,
    and is negative when \<open>i\<close> is below -1.
  \<^item> \<open>ret\<close> is an \<open>unsigned long\<close>, a 64-bit word.
  The loop reads the byte \<open>i / 2\<close> twice; the model reads it once and takes both
  nibbles. The loop of the model ends: it goes on only after a read in bounds, which
  needs \<open>i\<close> not negative, and then \<open>i + 2\<close> is the larger word.
\<close>

function asn1_value_integer_loop ::
  "tlv \<Rightarrow> 32 word \<Rightarrow> 32 word \<Rightarrow> 64 word \<Rightarrow> error + 64 word" where
  "asn1_value_integer_loop t i e ret =
     (if i < e - 1 then
        (case tlv_value_at t (sint i sdiv 2) of
           Inl err \<Rightarrow> Inl err
         | Inr b \<Rightarrow>
             asn1_value_integer_loop t (i + 2) e
               ((ret * 10 + ucast (drop_bit 4 b)) * 10 + ucast (b AND 0xf)))
      else Inr ret)"
  by pat_completeness auto
termination
proof (relation "measure (\<lambda>(t, i, e, ret). 2 ^ 32 - unat i)")
  show "wf (measure (\<lambda>(t, i, e, ret). 2 ^ 32 - unat i))"
    by simp
next
  fix t :: tlv and i e :: "32 word" and ret :: "64 word" and b :: byte
  assume less: "i < e - 1" and rd: "tlv_value_at t (sint i sdiv 2) = Inr b"
  from rd have idx: "0 \<le> sint i sdiv 2"
    by (simp add: tlv_value_at_def split: if_splits)
  have small: "unat i < 2 ^ 31"
  proof (rule ccontr)
    assume "\<not> unat i < 2 ^ 31"
    then have "int (2 ^ 31) \<le> int (unat i)"
      by (simp only: of_nat_le_iff not_less)
    then have "2 ^ 31 \<le> uint i" by simp
    from signed_take_bit_int_less_eq [OF this] have "sint i \<le> uint i - 2 ^ 32"
      by (simp add: sint_uint)
    moreover have "uint i < 2 ^ 32"
      using uint_bounded [of i] by simp
    moreover from idx have "- 1 \<le> sint i"
      by (auto simp: signed_divide_int_def sgn_if split: if_splits)
    ultimately have "sint i = - 1" by linarith
    then have "i = - 1"
      by (metis sint_n1 word_eq_iff_signed)
    with less show False
      by (metis word_order.extremum_strict)
  qed
  then have "unat (i + 2) = unat i + 2"
    by (simp add: unat_word_ariths)
  with small
  show "((t, i + 2, e, (ret * 10 + ucast (drop_bit 4 b)) * 10 + ucast (b AND 0xf)),
         (t, i, e, ret)) \<in> measure (\<lambda>(t, i, e, ret). 2 ^ 32 - unat i)"
    by simp
qed

declare asn1_value_integer_loop.simps [simp del]

definition asn1_value_integer :: "tlv \<Rightarrow> 32 word \<Rightarrow> 32 word \<Rightarrow> error + 64 word" where
  "asn1_value_integer t start e =
     (if unat e > (tlv_len t * 2) mod 2 ^ 64 then Inr 0
      else if start \<ge> e then Inr 0
      else
        (case (if start AND 1 \<noteq> 0 then
                 (case tlv_value_at t (int (unat start div 2)) of
                    Inl err \<Rightarrow> Inl err
                  | Inr b \<Rightarrow> Inr (0 + ucast (b AND 0xf), start + 1))
               else Inr (0, start)) of
           Inl err \<Rightarrow> Inl err
         | Inr (ret, i) \<Rightarrow>
             (case asn1_value_integer_loop t i e ret of
                Inl err \<Rightarrow> Inl err
              | Inr ret' \<Rightarrow>
                  if e AND 1 \<noteq> 0 then
                    (case tlv_value_at t (int (unat e div 2)) of
                       Inl err \<Rightarrow> Inl err
                     | Inr b \<Rightarrow> Inr (ret' * 10 + ucast (drop_bit 4 b)))
                  else Inr ret')))"




definition asn1_tag_dump_boolean :: "tlv \<Rightarrow> asn1_tag \<Rightarrow> int \<Rightarrow> error + out_call list" where
  "asn1_tag_dump_boolean t tg level =
     (if tlv_len t > 0 then
        (case tlv_value_at t 0 of
           Inl err \<Rightarrow> Inl err
         | Inr b \<Rightarrow>
             Inr (PRINT_INDENT level
                  @ [Fprintf (CHR 0x09 # ''value: %s\<newline>'')
                       [Arg_s (if b \<noteq> 0 then ''true'' else ''false'')]]))
      else Inr (PRINT_INDENT level @ [Fprintf ''n/a\<newline>'' []]))"

definition asn1_tag_dump_integer :: "tlv \<Rightarrow> asn1_tag \<Rightarrow> int \<Rightarrow> error + out_call list" where
  "asn1_tag_dump_integer t tg level =
     (case asn1_value_integer t 0 (of_nat ((tlv_len t * 2) mod 2 ^ 64)) of
        Inl err \<Rightarrow> Inl err
      | Inr v \<Rightarrow>
          Inr (PRINT_INDENT level
               @ [Fprintf (CHR 0x09 # ''value: %lu\<newline>'') [Arg_lu v]]))"

definition asn1_tag_dump_object_id :: "tlv \<Rightarrow> asn1_tag \<Rightarrow> int \<Rightarrow> out_call list" where
  "asn1_tag_dump_object_id t tg level =
     PRINT_INDENT level
     @ [Fprintf '' %s\<newline>'' [Arg_oid (tlv_value t) (tlv_len t)]]"

text \<open>
  \<open>asn1_tag_dump\<close>. The flag behind the pointer \<open>candump\<close> is passed in and returned: the
  result is the returned \<open>bool\<close>, the flag after the call, and the output.
\<close>

definition asn1_tag_dump ::
  "tlv option \<Rightarrow> int \<Rightarrow> bool \<Rightarrow> error + (bool \<times> bool \<times> out_call list)" where
  "asn1_tag_dump node level candump =
     (case node of
        None \<Rightarrow> Inr (False, candump, [Fprintf ''NULL\<newline>'' []])
      | Some t \<Rightarrow>
          (let tg = asn1_get_tag t;
               head = PRINT_INDENT level
                      @ [Fprintf (''--%2hx[%02zx] '' @ [CHR 0x27] @ ''%s'' @ [CHR 0x27] @ '':'')
                           [Arg_hx (tlv_tag t), Arg_zx (tlv_len t), Arg_s (name tg)]]
           in case type tg of
                ASN1_TAG_GENERIC \<Rightarrow> Inr (True, candump, head @ [Fprintf ''\<newline>'' []])
              | ASN1_TAG_STRING \<Rightarrow>
                  Inr (True, False, head @ asn1_tag_dump_string t tg level)
              | ASN1_TAG_BOOLEAN \<Rightarrow>
                  (case asn1_tag_dump_boolean t tg level of
                     Inl err \<Rightarrow> Inl err
                   | Inr out \<Rightarrow> Inr (True, False, head @ out))
              | ASN1_TAG_INTEGER \<Rightarrow>
                  (case asn1_tag_dump_integer t tg level of
                     Inl err \<Rightarrow> Inl err
                   | Inr out \<Rightarrow> Inr (True, False, head @ out))
              | ASN1_TAG_UTC_TIME \<Rightarrow> Inr (True, candump, head @ [Fprintf ''\<newline>'' []])
              | ASN1_TAG_OBJECT_ID \<Rightarrow>
                  Inr (True, False, head @ asn1_tag_dump_object_id t tg level)))"

section \<open>Tree dump driver\<close>


section \<open>Properties of the signature decomposer\<close>

subsection \<open>The helpers\<close>

lemma mbedtls_mpi_size_le_iff: "mbedtls_mpi_size x \<le> n \<longleftrightarrow> x < 256 ^ n"
proof (induction n arbitrary: x)
  case 0
  show ?case by (subst mbedtls_mpi_size.simps) simp
next
  case (Suc n)
  show ?case
  proof (cases "x = 0")
    case True
    then show ?thesis by (subst mbedtls_mpi_size.simps) simp
  next
    case False
    have "mbedtls_mpi_size x = Suc (mbedtls_mpi_size (x div 256))"
      using False by (subst mbedtls_mpi_size.simps) simp
    moreover have "x div 256 < 256 ^ n \<longleftrightarrow> x < 256 ^ Suc n"
      by (simp add: div_less_iff_less_mult mult.commute)
    ultimately show ?thesis using Suc.IH [of "x div 256"] by simp
  qed
qed

text \<open>The bytes written are \<open>n\<close> in number and read back as the integer.\<close>

lemma be_bytes_length: "length (be_bytes n x) = n"
  by (induction n arbitrary: x) simp_all

lemma be_bytes_value:
  "x < 256 ^ n \<Longrightarrow> foldl (\<lambda>acc b. acc * 256 + unat b) 0 (be_bytes n x) = x"
proof (induction n arbitrary: x)
  case 0
  then show ?case by simp
next
  case (Suc n)
  from Suc.prems have "x div 256 < 256 ^ n"
    by (simp add: div_less_iff_less_mult mult.commute)
  from Suc.IH [OF this] show ?case
    by (simp add: unat_of_nat)
qed

lemma mbedtls_mpi_write_binary_fits:
  "x < 256 ^ 32 \<Longrightarrow> mbedtls_mpi_write_binary x buf 32 = (0, be_bytes 32 x @ drop 32 buf)"
  using mbedtls_mpi_size_le_iff [of x 32] by (simp add: mbedtls_mpi_write_binary_def)

lemma mbedtls_mpi_write_binary_too_small:
  "256 ^ 32 \<le> x \<Longrightarrow> mbedtls_mpi_write_binary x buf 32 = (MBEDTLS_ERR_MPI_BUFFER_TOO_SMALL, buf)"
  using mbedtls_mpi_size_le_iff [of x 32] by (simp add: mbedtls_mpi_write_binary_def)

lemma asn1_len_fits_error:
  "asn1_len_fits p e len = Inl rc \<Longrightarrow> rc < 0"
  by (simp add: asn1_len_fits_def MBEDTLS_ERR_ASN1_OUT_OF_DATA_def split: if_splits)

lemma mbedtls_asn1_get_len_error:
  "mbedtls_asn1_get_len buf p e = Inl rc \<Longrightarrow> rc < 0"
  unfolding mbedtls_asn1_get_len_def
  by (auto simp: MBEDTLS_ERR_ASN1_OUT_OF_DATA_def MBEDTLS_ERR_ASN1_INVALID_LENGTH_def
      split: if_splits dest: asn1_len_fits_error)

lemma mbedtls_asn1_get_tag_error:
  "mbedtls_asn1_get_tag buf p e tg = Inl rc \<Longrightarrow> rc < 0"
  unfolding mbedtls_asn1_get_tag_def
  by (auto simp: MBEDTLS_ERR_ASN1_OUT_OF_DATA_def MBEDTLS_ERR_ASN1_UNEXPECTED_TAG_def
      split: if_splits dest: mbedtls_asn1_get_len_error)

lemma mbedtls_asn1_get_mpi_error:
  "mbedtls_asn1_get_mpi buf p e = Inl rc \<Longrightarrow> rc < 0"
  unfolding mbedtls_asn1_get_mpi_def
  by (auto split: sum.splits dest: mbedtls_asn1_get_tag_error)

lemma mbedtls_asn1_get_tag_nonempty:
  "mbedtls_asn1_get_tag buf p e tg = Inr x \<Longrightarrow> p < e"
  by (simp add: mbedtls_asn1_get_tag_def split: if_splits)

subsection \<open>The exits of the function on non-null arguments\<close>

lemma ecdsa_outer_failure:
  assumes "n \<noteq> 0"
    and "mbedtls_asn1_get_tag sg 0 n (MBEDTLS_ASN1_CONSTRUCTED OR MBEDTLS_ASN1_SEQUENCE) = Inl rc"
  shows "ecdsa_asn1_get_signature (Some sg) n (Some r) (Some s) = (rc, Some r, Some s)"
  using assms by (simp add: ecdsa_asn1_get_signature_def)

lemma ecdsa_first_failure:
  assumes "n \<noteq> 0"
    and "mbedtls_asn1_get_tag sg 0 n (MBEDTLS_ASN1_CONSTRUCTED OR MBEDTLS_ASN1_SEQUENCE)
           = Inr (p1, len)"
    and "mbedtls_asn1_get_mpi sg p1 n = Inl rc"
  shows "ecdsa_asn1_get_signature (Some sg) n (Some r) (Some s) = (rc, Some r, Some s)"
  using assms by (simp add: ecdsa_asn1_get_signature_def)

lemma ecdsa_first_too_wide:
  assumes "n \<noteq> 0"
    and "mbedtls_asn1_get_tag sg 0 n (MBEDTLS_ASN1_CONSTRUCTED OR MBEDTLS_ASN1_SEQUENCE)
           = Inr (p1, len)"
    and "mbedtls_asn1_get_mpi sg p1 n = Inr (p2, x)"
    and "256 ^ 32 \<le> x"
  shows "ecdsa_asn1_get_signature (Some sg) n (Some r) (Some s)
           = (MBEDTLS_ERR_MPI_BUFFER_TOO_SMALL, Some r, Some s)"
  using assms
  by (simp add: ecdsa_asn1_get_signature_def mbedtls_mpi_write_binary_too_small
      MBEDTLS_ERR_MPI_BUFFER_TOO_SMALL_def)

lemma ecdsa_second_failure:
  assumes "n \<noteq> 0"
    and "mbedtls_asn1_get_tag sg 0 n (MBEDTLS_ASN1_CONSTRUCTED OR MBEDTLS_ASN1_SEQUENCE)
           = Inr (p1, len)"
    and "mbedtls_asn1_get_mpi sg p1 n = Inr (p2, x)"
    and "x < 256 ^ 32"
    and "mbedtls_asn1_get_mpi sg p2 n = Inl rc"
  shows "ecdsa_asn1_get_signature (Some sg) n (Some r) (Some s)
           = (rc, Some (be_bytes 32 x @ drop 32 r), Some s)"
  using assms
  by (simp add: ecdsa_asn1_get_signature_def mbedtls_mpi_write_binary_fits)

lemma ecdsa_second_too_wide:
  assumes "n \<noteq> 0"
    and "mbedtls_asn1_get_tag sg 0 n (MBEDTLS_ASN1_CONSTRUCTED OR MBEDTLS_ASN1_SEQUENCE)
           = Inr (p1, len)"
    and "mbedtls_asn1_get_mpi sg p1 n = Inr (p2, x)"
    and "x < 256 ^ 32"
    and "mbedtls_asn1_get_mpi sg p2 n = Inr (p3, y)"
    and "256 ^ 32 \<le> y"
  shows "ecdsa_asn1_get_signature (Some sg) n (Some r) (Some s)
           = (MBEDTLS_ERR_MPI_BUFFER_TOO_SMALL, Some (be_bytes 32 x @ drop 32 r), Some s)"
  using assms
  by (simp add: ecdsa_asn1_get_signature_def mbedtls_mpi_write_binary_fits
      mbedtls_mpi_write_binary_too_small MBEDTLS_ERR_MPI_BUFFER_TOO_SMALL_def)

lemma ecdsa_both_written:
  assumes "n \<noteq> 0"
    and "mbedtls_asn1_get_tag sg 0 n (MBEDTLS_ASN1_CONSTRUCTED OR MBEDTLS_ASN1_SEQUENCE)
           = Inr (p1, len)"
    and "mbedtls_asn1_get_mpi sg p1 n = Inr (p2, x)"
    and "x < 256 ^ 32"
    and "mbedtls_asn1_get_mpi sg p2 n = Inr (p3, y)"
    and "y < 256 ^ 32"
  shows "ecdsa_asn1_get_signature (Some sg) n (Some r) (Some s)
           = (if n \<noteq> p3 then 2 else 0,
              Some (be_bytes 32 x @ drop 32 r), Some (be_bytes 32 y @ drop 32 s))"
  using assms
  by (simp add: ecdsa_asn1_get_signature_def mbedtls_mpi_write_binary_fits)

subsection \<open>The example signatures\<close>

lemma der_sequence_1_2_parse:
  "mbedtls_asn1_get_tag der_sequence_1_2 0 8
     (MBEDTLS_ASN1_CONSTRUCTED OR MBEDTLS_ASN1_SEQUENCE) = Inr (2, 6)"
  "mbedtls_asn1_get_mpi der_sequence_1_2 2 8 = Inr (5, 1)"
  "mbedtls_asn1_get_mpi der_sequence_1_2 5 8 = Inr (8, 2)"
  by code_simp+

lemma der_sequence_1_2_extra_parse:
  "mbedtls_asn1_get_tag (der_sequence_1_2 @ [b]) 0 9
     (MBEDTLS_ASN1_CONSTRUCTED OR MBEDTLS_ASN1_SEQUENCE) = Inr (2, 6)"
  "mbedtls_asn1_get_mpi (der_sequence_1_2 @ [b]) 2 9 = Inr (5, 1)"
  "mbedtls_asn1_get_mpi (der_sequence_1_2 @ [b]) 5 9 = Inr (8, 2)"
  by (simp_all add: der_sequence_1_2_def mbedtls_asn1_get_tag_def mbedtls_asn1_get_mpi_def
      mbedtls_asn1_get_len_def asn1_len_fits_def mbedtls_mpi_read_binary_def
      MBEDTLS_ASN1_CONSTRUCTED_def MBEDTLS_ASN1_SEQUENCE_def MBEDTLS_ASN1_INTEGER_def)

lemma be_bytes_32_small:
  "be_bytes 32 1 = replicate 31 0 @ [1]" "be_bytes 32 2 = replicate 31 0 @ [2]"
  by code_simp+

lemma foldl_zero_bytes:
  "foldl (\<lambda>acc b. acc * 256 + unat b) a (replicate n (0::byte)) = a * 256 ^ n"
  by (induction n arbitrary: a) simp_all

lemma der_sequence_wide_parse:
  "mbedtls_asn1_get_tag der_sequence_wide 0 40
     (MBEDTLS_ASN1_CONSTRUCTED OR MBEDTLS_ASN1_SEQUENCE) = Inr (2, 38)"
  "mbedtls_asn1_get_mpi der_sequence_wide 2 40 = Inr (37, 256 ^ 32)"
proof -
  show "mbedtls_asn1_get_tag der_sequence_wide 0 40
     (MBEDTLS_ASN1_CONSTRUCTED OR MBEDTLS_ASN1_SEQUENCE) = Inr (2, 38)"
    by code_simp
  have t: "mbedtls_asn1_get_tag der_sequence_wide 2 40 MBEDTLS_ASN1_INTEGER = Inr (4, 33)"
    by code_simp
  have m: "take 33 (drop 4 der_sequence_wide) = 1 # replicate 32 0"
    by code_simp
  show "mbedtls_asn1_get_mpi der_sequence_wide 2 40 = Inr (37, 256 ^ 32)"
    by (simp add: mbedtls_asn1_get_mpi_def t mbedtls_mpi_read_binary_def m foldl_zero_bytes)
qed

subsection \<open>Decomposition of a valid signature\<close>

text \<open>
  Claim C1. On the DER encoding of \<open>SEQUENCE { INTEGER 1, INTEGER 2 }\<close>, with 32-byte
  buffers \<open>r\<close> and \<open>s\<close> of any content, \<open>ecdsa_asn1_get_signature\<close> returns 0 and leaves
  31 zero bytes followed by 0x01 in \<open>r\<close> and 31 zero bytes followed by 0x02 in \<open>s\<close>.
\<close>

theorem ecdsa_sequence_1_2:
  assumes "length r = 32" and "length s = 32"
  shows "ecdsa_asn1_get_signature (Some der_sequence_1_2) (length der_sequence_1_2)
           (Some r) (Some s)
         = (0, Some (replicate 31 0 @ [1]), Some (replicate 31 0 @ [2]))"
proof -
  have n: "length der_sequence_1_2 = 8"
    by (simp add: der_sequence_1_2_def)
  have "ecdsa_asn1_get_signature (Some der_sequence_1_2) 8 (Some r) (Some s)
          = (if (8::nat) \<noteq> 8 then 2 else 0,
             Some (be_bytes 32 1 @ drop 32 r), Some (be_bytes 32 2 @ drop 32 s))"
    by (rule ecdsa_both_written
        [OF _ der_sequence_1_2_parse(1,2) _ der_sequence_1_2_parse(3)]) simp_all
  then show ?thesis
    using assms by (simp add: n be_bytes_32_small del: One_nat_def)
qed

theorem ecdsa_sequence_1_2_witness:
  "length (replicate 32 (0xAA::byte)) = 32 \<and> length (replicate 32 (0xBB::byte)) = 32 \<and>
   ecdsa_asn1_get_signature (Some der_sequence_1_2) (length der_sequence_1_2)
     (Some (replicate 32 0xAA)) (Some (replicate 32 0xBB))
   = (0, Some (replicate 31 0 @ [1]), Some (replicate 31 0 @ [2]))"
  using ecdsa_sequence_1_2 [of "replicate 32 0xAA" "replicate 32 0xBB"] by simp

subsection \<open>Trailing data\<close>

text \<open>
  Claim C2, as stated, takes the end cursor to be the start of the content plus the
  declared length of the outer \<open>SEQUENCE\<close>. On the 8 bytes 30 03 02 01 01 02 01 02 the
  \<open>SEQUENCE\<close> declares 3 content bytes from offset 2, so that end would be 5; both
  integers are read, the cursor stands at 8, which is not 5, and the function returns 0.
\<close>

theorem ecdsa_sequence_end_counterexample:
  "mbedtls_asn1_get_tag [0x30, 0x03, 0x02, 0x01, 0x01, 0x02, 0x01, 0x02] 0 8
     (MBEDTLS_ASN1_CONSTRUCTED OR MBEDTLS_ASN1_SEQUENCE) = Inr (2, 3) \<and>
   mbedtls_asn1_get_mpi [0x30, 0x03, 0x02, 0x01, 0x01, 0x02, 0x01, 0x02] 2 8 = Inr (5, 1) \<and>
   mbedtls_asn1_get_mpi [0x30, 0x03, 0x02, 0x01, 0x01, 0x02, 0x01, 0x02] 5 8 = Inr (8, 2) \<and>
   (8::nat) \<noteq> 2 + 3 \<and>
   fst (ecdsa_asn1_get_signature (Some [0x30, 0x03, 0x02, 0x01, 0x01, 0x02, 0x01, 0x02]) 8
          (Some (replicate 32 0)) (Some (replicate 32 0))) = 0"
  by code_simp

text \<open>
  Claim C2, amended. The end cursor is the end of the input, \<open>signature + signaturelen\<close>.
  The function returns 2 exactly when the outer \<open>SEQUENCE\<close> header and both integers
  are read, both integers fit 32 bytes, and the cursor behind the second integer is not
  the end of the input. One byte appended to the encoding of
  \<open>SEQUENCE { INTEGER 1, INTEGER 2 }\<close> gives 2. The status 2 is none of 0, 1 and the
  mbedtls error codes.
\<close>

theorem ecdsa_trailing_data:
  "(fst (ecdsa_asn1_get_signature (Some sg) n (Some r) (Some s)) = 2)
     = (\<exists>p1 len p2 x p3 y.
          mbedtls_asn1_get_tag sg 0 n (MBEDTLS_ASN1_CONSTRUCTED OR MBEDTLS_ASN1_SEQUENCE)
            = Inr (p1, len) \<and>
          mbedtls_asn1_get_mpi sg p1 n = Inr (p2, x) \<and> x < 256 ^ 32 \<and>
          mbedtls_asn1_get_mpi sg p2 n = Inr (p3, y) \<and> y < 256 ^ 32 \<and>
          p3 \<noteq> n) \<and>
   fst (ecdsa_asn1_get_signature (Some (der_sequence_1_2 @ [b]))
          (length (der_sequence_1_2 @ [b])) (Some r) (Some s)) = 2 \<and>
   2 \<notin> {0, 1, MBEDTLS_ERR_ASN1_OUT_OF_DATA, MBEDTLS_ERR_ASN1_UNEXPECTED_TAG,
          MBEDTLS_ERR_ASN1_INVALID_LENGTH, MBEDTLS_ERR_MPI_BUFFER_TOO_SMALL}"
proof (intro conjI)
  let ?seq = "MBEDTLS_ASN1_CONSTRUCTED OR MBEDTLS_ASN1_SEQUENCE"
  let ?res = "ecdsa_asn1_get_signature (Some sg) n (Some r) (Some s)"
  let ?rhs = "\<exists>p1 len p2 x p3 y.
           mbedtls_asn1_get_tag sg 0 n ?seq = Inr (p1, len) \<and>
           mbedtls_asn1_get_mpi sg p1 n = Inr (p2, x) \<and> x < 256 ^ 32 \<and>
           mbedtls_asn1_get_mpi sg p2 n = Inr (p3, y) \<and> y < 256 ^ 32 \<and>
           p3 \<noteq> n"
  show "(fst ?res = 2) = ?rhs"
  proof (cases "mbedtls_asn1_get_tag sg 0 n ?seq")
    case (Inl rc)
    show ?thesis
    proof (cases "n = 0")
      case True
      with Inl show ?thesis by (simp add: ecdsa_asn1_get_signature_def)
    next
      case False
      with Inl mbedtls_asn1_get_tag_error [OF Inl] show ?thesis
        by (simp add: ecdsa_outer_failure)
    qed
  next
    case (Inr a)
    then obtain p1 len where t: "mbedtls_asn1_get_tag sg 0 n ?seq = Inr (p1, len)"
      by (cases a) simp
    from mbedtls_asn1_get_tag_nonempty [OF t] have n: "n \<noteq> 0" by simp
    show ?thesis
    proof (cases "mbedtls_asn1_get_mpi sg p1 n")
      case (Inl rc)
      with n t mbedtls_asn1_get_mpi_error [OF Inl] show ?thesis
        by (simp add: ecdsa_first_failure)
    next
      case (Inr b)
      then obtain p2 x where x: "mbedtls_asn1_get_mpi sg p1 n = Inr (p2, x)"
        by (cases b) simp
      show ?thesis
      proof (cases "x < 256 ^ 32")
        case False
        with n t x show ?thesis
          by (simp add: ecdsa_first_too_wide MBEDTLS_ERR_MPI_BUFFER_TOO_SMALL_def)
      next
        case xs: True
        show ?thesis
        proof (cases "mbedtls_asn1_get_mpi sg p2 n")
          case (Inl rc)
          with n t x xs mbedtls_asn1_get_mpi_error [OF Inl] show ?thesis
            by (simp add: ecdsa_second_failure)
        next
          case (Inr c)
          then obtain p3 y where y: "mbedtls_asn1_get_mpi sg p2 n = Inr (p3, y)"
            by (cases c) simp
          show ?thesis
          proof (cases "y < 256 ^ 32")
            case False
            with n t x xs y show ?thesis
              by (simp add: ecdsa_second_too_wide MBEDTLS_ERR_MPI_BUFFER_TOO_SMALL_def)
          next
            case True
            with n t x xs y show ?thesis
              by (auto simp: ecdsa_both_written)
          qed
        qed
      qed
    qed
  qed
next
  have "ecdsa_asn1_get_signature (Some (der_sequence_1_2 @ [b])) 9 (Some r) (Some s)
          = (if (9::nat) \<noteq> 8 then 2 else 0,
             Some (be_bytes 32 1 @ drop 32 r), Some (be_bytes 32 2 @ drop 32 s))"
    by (rule ecdsa_both_written
        [OF _ der_sequence_1_2_extra_parse(1,2) _ der_sequence_1_2_extra_parse(3)]) simp_all
  moreover have "length (der_sequence_1_2 @ [b]) = 9"
    by (simp add: der_sequence_1_2_def)
  ultimately show "fst (ecdsa_asn1_get_signature (Some (der_sequence_1_2 @ [b]))
          (length (der_sequence_1_2 @ [b])) (Some r) (Some s)) = 2"
    by (simp only: fst_conv) simp
next
  show "2 \<notin> {0, 1, MBEDTLS_ERR_ASN1_OUT_OF_DATA, MBEDTLS_ERR_ASN1_UNEXPECTED_TAG,
          MBEDTLS_ERR_ASN1_INVALID_LENGTH, MBEDTLS_ERR_MPI_BUFFER_TOO_SMALL}"
    by (simp add: MBEDTLS_ERR_ASN1_OUT_OF_DATA_def MBEDTLS_ERR_ASN1_UNEXPECTED_TAG_def
        MBEDTLS_ERR_ASN1_INVALID_LENGTH_def MBEDTLS_ERR_MPI_BUFFER_TOO_SMALL_def)
qed

subsection \<open>Integers wider than 32 bytes\<close>

text \<open>
  Claim C3. When the outer \<open>SEQUENCE\<close> header and the first integer \<open>x\<close> are read, and
  \<open>x\<close> needs more than 32 bytes, or the second integer \<open>y\<close> is read and needs more than
  32 bytes, the function returns the failure \<open>MBEDTLS_ERR_MPI_BUFFER_TOO_SMALL\<close>, which
  is not 0, and the buffer of the integer that is too wide is left as it was: \<open>r\<close> and
  \<open>s\<close> when it is \<open>x\<close>, and \<open>s\<close> when it is \<open>y\<close>.
\<close>

theorem ecdsa_integer_too_wide:
  assumes "mbedtls_asn1_get_tag sg 0 signaturelen
             (MBEDTLS_ASN1_CONSTRUCTED OR MBEDTLS_ASN1_SEQUENCE) = Inr (p1, len)"
    and "mbedtls_asn1_get_mpi sg p1 signaturelen = Inr (p2, x)"
    and "256 ^ 32 \<le> x \<or>
         (mbedtls_asn1_get_mpi sg p2 signaturelen = Inr (p3, y) \<and> 256 ^ 32 \<le> y)"
  shows "ecdsa_asn1_get_signature (Some sg) signaturelen (Some r) (Some s)
           = (MBEDTLS_ERR_MPI_BUFFER_TOO_SMALL,
              if 256 ^ 32 \<le> x then Some r else Some (be_bytes 32 x @ drop 32 r),
              Some s) \<and>
         MBEDTLS_ERR_MPI_BUFFER_TOO_SMALL \<noteq> 0"
proof (cases "256 ^ 32 \<le> x")
  case True
  from mbedtls_asn1_get_tag_nonempty [OF assms(1)] have "signaturelen \<noteq> 0" by simp
  from ecdsa_first_too_wide [OF this assms(1,2) True] True show ?thesis
    by (simp add: MBEDTLS_ERR_MPI_BUFFER_TOO_SMALL_def)
next
  case False
  from mbedtls_asn1_get_tag_nonempty [OF assms(1)] have n: "signaturelen \<noteq> 0" by simp
  from False assms(3)
  have y: "mbedtls_asn1_get_mpi sg p2 signaturelen = Inr (p3, y)" "256 ^ 32 \<le> y"
    by simp_all
  from False have "x < 256 ^ 32" by simp
  from ecdsa_second_too_wide [OF n assms(1,2) this y] False show ?thesis
    by (simp add: MBEDTLS_ERR_MPI_BUFFER_TOO_SMALL_def)
qed

theorem ecdsa_integer_too_wide_witness:
  "ecdsa_asn1_get_signature (Some der_sequence_wide) 40
     (Some (replicate 32 7)) (Some (replicate 32 9))
   = (MBEDTLS_ERR_MPI_BUFFER_TOO_SMALL, Some (replicate 32 7), Some (replicate 32 9)) \<and>
   MBEDTLS_ERR_MPI_BUFFER_TOO_SMALL \<noteq> 0"
  using ecdsa_integer_too_wide [of der_sequence_wide 40 2 38 37 "256 ^ 32" 0 0
      "replicate 32 7" "replicate 32 9"] der_sequence_wide_parse
  by simp

subsection \<open>Null and empty arguments\<close>

text \<open>
  Claim C10. When \<open>signature\<close>, \<open>rval\<close> or \<open>sval\<close> is null, or \<open>signaturelen\<close> is 0, the
  function returns 1 and both output buffers are as they were.
\<close>

theorem ecdsa_null_arguments:
  assumes "signature = None \<or> signaturelen = 0 \<or> rval = None \<or> sval = None"
  shows "ecdsa_asn1_get_signature signature signaturelen rval sval = (1, rval, sval)"
  using assms by (auto simp: ecdsa_asn1_get_signature_def split: option.splits)

theorem ecdsa_null_arguments_witness:
  "ecdsa_asn1_get_signature None 8 (Some (replicate 32 7)) (Some (replicate 32 9))
     = (1, Some (replicate 32 7), Some (replicate 32 9)) \<and>
   ecdsa_asn1_get_signature (Some der_sequence_1_2) 0
       (Some (replicate 32 7)) (Some (replicate 32 9))
     = (1, Some (replicate 32 7), Some (replicate 32 9)) \<and>
   ecdsa_asn1_get_signature (Some der_sequence_1_2) 8 None (Some (replicate 32 9))
     = (1, None, Some (replicate 32 9)) \<and>
   ecdsa_asn1_get_signature (Some der_sequence_1_2) 8 (Some (replicate 32 7)) None
     = (1, Some (replicate 32 7), None)"
  using ecdsa_null_arguments [of None 8 "Some (replicate 32 7)" "Some (replicate 32 9)"]
    ecdsa_null_arguments [of "Some der_sequence_1_2" 0
      "Some (replicate 32 7)" "Some (replicate 32 9)"]
    ecdsa_null_arguments [of "Some der_sequence_1_2" 8 None "Some (replicate 32 9)"]
    ecdsa_null_arguments [of "Some der_sequence_1_2" 8 "Some (replicate 32 7)" None]
  by simp

section \<open>Properties of the tag registry\<close>

subsection \<open>Binary search over a range whose ranks ascend strictly\<close>

lemma bsearch_range_found:
  "bsearch_range key base l u compar = Some i \<Longrightarrow> l \<le> i \<and> i < u \<and> compar key (base ! i) = 0"
proof (induction key base l u compar rule: bsearch_range.induct)
  case (1 key base l u compar)
  from "1.prems" have lu: "l < u"
    by (subst (asm) bsearch_range.simps) (simp split: if_splits)
  let ?idx = "(l + u) div 2"
  let ?c = "compar key (base ! ?idx)"
  from lu have mid: "l \<le> ?idx" "?idx < u" by simp_all
  consider "?c < 0" | "?c > 0" | "?c = 0" by linarith
  then show ?case
  proof cases
    case 1
    with "1.prems" lu have "bsearch_range key base l ?idx compar = Some i"
      by (subst (asm) bsearch_range.simps) (simp add: Let_def)
    from "1.IH"(1) [OF lu refl refl 1 this] mid show ?thesis by simp
  next
    case 2
    with "1.prems" lu have "bsearch_range key base (?idx + 1) u compar = Some i"
      by (subst (asm) bsearch_range.simps) (simp add: Let_def)
    from "1.IH"(2) [OF lu refl refl _ 2 this] 2 mid show ?thesis by simp
  next
    case 3
    with "1.prems" lu have "i = ?idx"
      by (subst (asm) bsearch_range.simps) (simp add: Let_def)
    with 3 mid show ?thesis by simp
  qed
qed

lemma bsearch_range_complete:
  assumes "\<And>i j. l \<le> i \<Longrightarrow> i < j \<Longrightarrow> j < u \<Longrightarrow> rank (base ! i) < rank (base ! j)"
    and "\<And>i. l \<le> i \<Longrightarrow> i < u \<Longrightarrow> compar key (base ! i) = k - rank (base ! i)"
    and "l \<le> j" and "j < u" and "rank (base ! j) = (k::int)"
  shows "bsearch_range key base l u compar = Some j"
  using assms
proof (induction key base l u compar rule: bsearch_range.induct)
  case (1 key base l u compar)
  from "1.prems"(3,4) have lu: "l < u" by simp
  let ?idx = "(l + u) div 2"
  let ?c = "compar key (base ! ?idx)"
  from lu have mid: "l \<le> ?idx" "?idx < u" by simp_all
  have c: "?c = k - rank (base ! ?idx)"
    using "1.prems"(2) mid by simp
  consider "j < ?idx" | "?idx < j" | "j = ?idx" by linarith
  then show ?case
  proof cases
    case 1
    then have "rank (base ! j) < rank (base ! ?idx)"
      using "1.prems"(1) [of j ?idx] "1.prems"(3) mid by simp
    with c "1.prems"(5) have neg: "?c < 0" by simp
    have "bsearch_range key base l ?idx compar = Some j"
    proof (rule "1.IH"(1) [OF lu refl refl neg])
      show "rank (base ! i) < rank (base ! j)" if "l \<le> i" "i < j" "j < ?idx" for i j
        using that "1.prems"(1) [of i j] mid by simp
      show "compar key (base ! i) = k - rank (base ! i)" if "l \<le> i" "i < ?idx" for i
        using that "1.prems"(2) [of i] mid by simp
    qed (use 1 "1.prems" in simp_all)
    with lu neg show ?thesis
      by (subst bsearch_range.simps) (simp add: Let_def)
  next
    case 2
    then have "rank (base ! ?idx) < rank (base ! j)"
      using "1.prems"(1) [of ?idx j] "1.prems"(4) mid by simp
    with c "1.prems"(5) have pos: "?c > 0" by simp
    then have nneg: "\<not> ?c < 0" by simp
    have "bsearch_range key base (?idx + 1) u compar = Some j"
    proof (rule "1.IH"(2) [OF lu refl refl nneg pos])
      show "rank (base ! i) < rank (base ! j)" if "?idx + 1 \<le> i" "i < j" "j < u" for i j
        using that "1.prems"(1) [of i j] mid by simp
      show "compar key (base ! i) = k - rank (base ! i)" if "?idx + 1 \<le> i" "i < u" for i
        using that "1.prems"(2) [of i] mid by simp
    qed (use 2 "1.prems" in simp_all)
    with lu pos nneg show ?thesis
      by (subst bsearch_range.simps) (simp add: Let_def)
  next
    case 3
    with c "1.prems"(5) have "?c = 0" by simp
    with lu 3 show ?thesis
      by (subst bsearch_range.simps) (simp add: Let_def)
  qed
qed

lemma bsearch_range_absent:
  assumes "\<And>i. l \<le> i \<Longrightarrow> i < u \<Longrightarrow> compar key (base ! i) \<noteq> 0"
  shows "bsearch_range key base l u compar = None"
proof (cases "bsearch_range key base l u compar")
  case None
  then show ?thesis .
next
  case (Some i)
  from bsearch_range_found [OF Some] assms [of i] show ?thesis by simp
qed

subsection \<open>The table\<close>

lemma asn1_tags_length: "length asn1_tags = 23"
  by (simp add: asn1_tags_def)

lemma asn1_tags_ranks_ascend:
  "sorted_wrt (<) (map (\<lambda>e. asn1_sort_tag (tag e)) asn1_tags)"
  by code_simp

lemma asn1_tags_rank_less:
  assumes "i < j" and "j < length asn1_tags"
  shows "asn1_sort_tag (tag (asn1_tags ! i)) < asn1_sort_tag (tag (asn1_tags ! j))"
  using sorted_wrt_nth_less [OF asn1_tags_ranks_ascend, of i j] assms by simp

lemma asn1_tags_sentinel:
  "asn1_tags ! 0 = \<lparr>tag = 0x00, name = ''Unknown ???'', type = ASN1_TAG_GENERIC\<rparr>"
  by (simp add: asn1_tags_def)

lemma asn1_get_tag_rank_match:
  assumes "e \<in> set asn1_tags" and "asn1_sort_tag (tag e) = asn1_sort_tag (tlv_tag t)"
  shows "asn1_get_tag t = e"
proof -
  from assms(1) obtain j where j: "j < length asn1_tags" "asn1_tags ! j = e"
    by (auto simp: in_set_conv_nth)
  have "bsearch_range t asn1_tags 0 (length asn1_tags) asn1_tlv_compare = Some j"
  proof (rule bsearch_range_complete [where rank = "\<lambda>e. asn1_sort_tag (tag e)"
        and k = "asn1_sort_tag (tlv_tag t)"])
    show "asn1_sort_tag (tag (asn1_tags ! i)) < asn1_sort_tag (tag (asn1_tags ! j))"
      if "i < j" "j < length asn1_tags" for i j
      using that by (rule asn1_tags_rank_less)
    show "asn1_tlv_compare t (asn1_tags ! i)
            = asn1_sort_tag (tlv_tag t) - asn1_sort_tag (tag (asn1_tags ! i))" for i
      by (simp add: asn1_tlv_compare_def)
    show "asn1_sort_tag (tag (asn1_tags ! j)) = asn1_sort_tag (tlv_tag t)"
      using j assms(2) by simp
  qed (use j in simp_all)
  with j show ?thesis
    by (simp add: asn1_get_tag_def bsearch_def)
qed

lemma asn1_get_tag_rank_absent:
  assumes "\<And>e. e \<in> set asn1_tags \<Longrightarrow> asn1_sort_tag (tag e) \<noteq> asn1_sort_tag (tlv_tag t)"
  shows "asn1_get_tag t = asn1_tags ! 0"
proof -
  have "bsearch_range t asn1_tags 0 (length asn1_tags) asn1_tlv_compare = None"
  proof (rule bsearch_range_absent)
    fix i
    assume "i < length asn1_tags"
    then have "asn1_tags ! i \<in> set asn1_tags" by simp
    from assms [OF this] show "asn1_tlv_compare t (asn1_tags ! i) \<noteq> 0"
      by (simp add: asn1_tlv_compare_def)
  qed
  then show ?thesis
    by (simp add: asn1_get_tag_def bsearch_def)
qed

subsection \<open>Lookup\<close>

text \<open>
  Claim C6, as stated, sends every code that is absent from the table to the sentinel.
  The code 0x0100 is not in the table, and its rank 0x100 is the rank of the code 0x01:
  the lookup returns the entry \<open>BOOLEAN\<close>.
\<close>

theorem asn1_get_tag_absent_counterexample:
  "(0x0100 :: tlv_tag_t) \<notin> tag ` set asn1_tags \<and>
   asn1_get_tag \<lparr>tlv_tag = 0x0100, tlv_len = 0, tlv_value = []\<rparr>
     = \<lparr>tag = 0x01, name = ''BOOLEAN'', type = ASN1_TAG_BOOLEAN\<rparr>"
  by code_simp

text \<open>
  Claim C6, amended. The lookup always returns an entry of the table. It returns the
  entry whose rank is the rank of the code looked up, when there is one; so for a code
  that is in the table it returns the entry with that code. For a code whose rank is the
  rank of no entry it returns the sentinel, with name "Unknown ???" and category
  Generic. The entry returned depends on the code of the node only.
\<close>

theorem asn1_get_tag_lookup:
  "asn1_get_tag t \<in> set asn1_tags \<and>
   (\<forall>e \<in> set asn1_tags.
      asn1_sort_tag (tag e) = asn1_sort_tag (tlv_tag t) \<longrightarrow> asn1_get_tag t = e) \<and>
   (tlv_tag t \<in> tag ` set asn1_tags \<longrightarrow> tag (asn1_get_tag t) = tlv_tag t) \<and>
   ((\<forall>e \<in> set asn1_tags. asn1_sort_tag (tag e) \<noteq> asn1_sort_tag (tlv_tag t)) \<longrightarrow>
      asn1_get_tag t = \<lparr>tag = 0x00, name = ''Unknown ???'', type = ASN1_TAG_GENERIC\<rparr>) \<and>
   (tlv_tag t' = tlv_tag t \<longrightarrow> asn1_get_tag t' = asn1_get_tag t)"
proof (intro conjI ballI impI)
  show "asn1_get_tag t \<in> set asn1_tags"
  proof (cases "\<exists>e \<in> set asn1_tags. asn1_sort_tag (tag e) = asn1_sort_tag (tlv_tag t)")
    case True
    then show ?thesis using asn1_get_tag_rank_match by auto
  next
    case False
    then have "asn1_get_tag t = asn1_tags ! 0"
      by (intro asn1_get_tag_rank_absent) auto
    then show ?thesis by (simp add: asn1_tags_length)
  qed
next
  fix e
  assume "e \<in> set asn1_tags" "asn1_sort_tag (tag e) = asn1_sort_tag (tlv_tag t)"
  then show "asn1_get_tag t = e" by (rule asn1_get_tag_rank_match)
next
  assume "tlv_tag t \<in> tag ` set asn1_tags"
  then obtain e where "e \<in> set asn1_tags" "tag e = tlv_tag t" by auto
  then show "tag (asn1_get_tag t) = tlv_tag t"
    using asn1_get_tag_rank_match [of e t] by simp
next
  assume "\<forall>e \<in> set asn1_tags. asn1_sort_tag (tag e) \<noteq> asn1_sort_tag (tlv_tag t)"
  then have "asn1_get_tag t = asn1_tags ! 0"
    by (intro asn1_get_tag_rank_absent) auto
  then show "asn1_get_tag t = \<lparr>tag = 0x00, name = ''Unknown ???'', type = ASN1_TAG_GENERIC\<rparr>"
    by (simp add: asn1_tags_sentinel)
next
  assume same: "tlv_tag t' = tlv_tag t"
  show "asn1_get_tag t' = asn1_get_tag t"
  proof (cases "\<exists>e \<in> set asn1_tags. asn1_sort_tag (tag e) = asn1_sort_tag (tlv_tag t)")
    case True
    then obtain e where "e \<in> set asn1_tags" "asn1_sort_tag (tag e) = asn1_sort_tag (tlv_tag t)"
      by auto
    with same asn1_get_tag_rank_match [of e t] asn1_get_tag_rank_match [of e t']
    show ?thesis by simp
  next
    case False
    then have no: "asn1_sort_tag (tag e) \<noteq> asn1_sort_tag (tlv_tag t)"
      if "e \<in> set asn1_tags" for e
      using that by blast
    then have "asn1_get_tag t = asn1_tags ! 0"
      by (rule asn1_get_tag_rank_absent)
    moreover from no same have "asn1_sort_tag (tag e) \<noteq> asn1_sort_tag (tlv_tag t')"
      if "e \<in> set asn1_tags" for e
      using that by simp
    then have "asn1_get_tag t' = asn1_tags ! 0"
      by (rule asn1_get_tag_rank_absent)
    ultimately show ?thesis by simp
  qed
qed

theorem asn1_get_tag_lookup_witness:
  "tag (asn1_get_tag \<lparr>tlv_tag = 0x30, tlv_len = 0, tlv_value = []\<rparr>) = 0x30 \<and>
   asn1_get_tag \<lparr>tlv_tag = 0x07, tlv_len = 0, tlv_value = []\<rparr>
     = \<lparr>tag = 0x00, name = ''Unknown ???'', type = ASN1_TAG_GENERIC\<rparr> \<and>
   asn1_get_tag \<lparr>tlv_tag = 0x30, tlv_len = 1, tlv_value = [0x05]\<rparr>
     = asn1_get_tag \<lparr>tlv_tag = 0x30, tlv_len = 0, tlv_value = []\<rparr>"
proof -
  have present: "(0x30 :: tlv_tag_t) \<in> tag ` set asn1_tags"
    by (simp add: asn1_tags_def)
  have absent: "\<forall>e \<in> set asn1_tags. asn1_sort_tag (tag e) \<noteq> asn1_sort_tag 0x07"
    by (simp add: asn1_tags_def asn1_sort_tag_def)
  show ?thesis
    using asn1_get_tag_lookup
        [where t = "\<lparr>tlv_tag = 0x30, tlv_len = 0, tlv_value = []\<rparr>"
           and t' = "\<lparr>tlv_tag = 0x30, tlv_len = 1, tlv_value = [0x05]\<rparr>"]
      asn1_get_tag_lookup
        [where t = "\<lparr>tlv_tag = 0x07, tlv_len = 0, tlv_value = []\<rparr>"
           and t' = "\<lparr>tlv_tag = 0x07, tlv_len = 0, tlv_value = []\<rparr>"]
      present absent
    by simp
qed

section \<open>Properties of the value formatter\<close>

subsection \<open>Word arithmetic of the nibble positions\<close>






subsection \<open>Packed decimal integers\<close>





















subsection \<open>Booleans\<close>

lemma asn1_tag_dump_boolean_eq:
  assumes "tlv_wf t"
  shows "asn1_tag_dump_boolean t tg level
           = Inr (PRINT_INDENT level
                  @ [if tlv_value t = [] then Fprintf ''n/a\<newline>'' []
                     else Fprintf (CHR 0x09 # ''value: %s\<newline>'')
                            [Arg_s (if hd (tlv_value t) \<noteq> 0 then ''true'' else ''false'')]])"
  using assms
  by (cases "tlv_value t") (simp_all add: asn1_tag_dump_boolean_def tlv_wf_def tlv_value_at_def)

text \<open>
  Claim C7. For a node whose \<open>len\<close> bytes are its value, \<open>asn1_tag_dump_boolean\<close>
  prints, after the indentation, "n/a" when the value is empty, and otherwise the value
  "true" when the first byte is not zero and "false" when it is zero, whatever the length
  of the value.
\<close>

theorem asn1_tag_dump_boolean_text:
  assumes "tlv_wf t"
  shows "asn1_tag_dump_boolean t tg level
           = Inr (PRINT_INDENT level
                  @ [if tlv_value t = [] then Fprintf ''n/a\<newline>'' []
                     else Fprintf (CHR 0x09 # ''value: %s\<newline>'')
                            [Arg_s (if hd (tlv_value t) \<noteq> 0 then ''true'' else ''false'')]])"
  using assms by (rule asn1_tag_dump_boolean_eq)

theorem asn1_tag_dump_boolean_text_witness:
  "asn1_tag_dump_boolean \<lparr>tlv_tag = 0x01, tlv_len = 0, tlv_value = []\<rparr>
     \<lparr>tag = 0x01, name = ''BOOLEAN'', type = ASN1_TAG_BOOLEAN\<rparr> 0
     = Inr [Fprintf ''n/a\<newline>'' []] \<and>
   asn1_tag_dump_boolean \<lparr>tlv_tag = 0x01, tlv_len = 1, tlv_value = [0x00]\<rparr>
     \<lparr>tag = 0x01, name = ''BOOLEAN'', type = ASN1_TAG_BOOLEAN\<rparr> 0
     = Inr [Fprintf (CHR 0x09 # ''value: %s\<newline>'') [Arg_s ''false'']] \<and>
   asn1_tag_dump_boolean \<lparr>tlv_tag = 0x01, tlv_len = 1, tlv_value = [0x01]\<rparr>
     \<lparr>tag = 0x01, name = ''BOOLEAN'', type = ASN1_TAG_BOOLEAN\<rparr> 0
     = Inr [Fprintf (CHR 0x09 # ''value: %s\<newline>'') [Arg_s ''true'']] \<and>
   asn1_tag_dump_boolean \<lparr>tlv_tag = 0x01, tlv_len = 2, tlv_value = [0xFF, 0x00]\<rparr>
     \<lparr>tag = 0x01, name = ''BOOLEAN'', type = ASN1_TAG_BOOLEAN\<rparr> 0
     = Inr [Fprintf (CHR 0x09 # ''value: %s\<newline>'') [Arg_s ''true'']]"
  using asn1_tag_dump_boolean_text [of "\<lparr>tlv_tag = 0x01, tlv_len = 0, tlv_value = []\<rparr>"
      "\<lparr>tag = 0x01, name = ''BOOLEAN'', type = ASN1_TAG_BOOLEAN\<rparr>" 0]
    asn1_tag_dump_boolean_text [of "\<lparr>tlv_tag = 0x01, tlv_len = 1, tlv_value = [0x00]\<rparr>"
      "\<lparr>tag = 0x01, name = ''BOOLEAN'', type = ASN1_TAG_BOOLEAN\<rparr>" 0]
    asn1_tag_dump_boolean_text [of "\<lparr>tlv_tag = 0x01, tlv_len = 1, tlv_value = [0x01]\<rparr>"
      "\<lparr>tag = 0x01, name = ''BOOLEAN'', type = ASN1_TAG_BOOLEAN\<rparr>" 0]
    asn1_tag_dump_boolean_text [of "\<lparr>tlv_tag = 0x01, tlv_len = 2, tlv_value = [0xFF, 0x00]\<rparr>"
      "\<lparr>tag = 0x01, name = ''BOOLEAN'', type = ASN1_TAG_BOOLEAN\<rparr>" 0]
  by (simp add: tlv_wf_def PRINT_INDENT_def)

subsection \<open>The dump of a node\<close>








text \<open>
  Claim C9. Called with a null node, \<open>asn1_tag_dump\<close> prints "NULL", returns false and
  leaves \<open>candump\<close> as it was; nothing of the node is read.
\<close>

theorem asn1_tag_dump_null:
  "asn1_tag_dump None level candump = Inr (False, candump, [Fprintf ''NULL\<newline>'' []])"
  by (simp add: asn1_tag_dump_def)

end
